theory Spec2Isabelle
  imports Main "HOL-Library.Word"
begin

unbundle bit_operations_syntax

section \<open>The allocator state\<close>

text \<open>
  The four file-scope variables of \<^verbatim>\<open>alloc.c\<close>, and the text written to the error
  stream. The pool \<^verbatim>\<open>mem\<close> is only ever accessed by \<^verbatim>\<open>alloc\<close> and \<^verbatim>\<open>free_mem\<close> through
  \<^verbatim>\<open>uint64_t*\<close>, so it is kept as its sequence of 8-byte cells: cell \<open>k\<close> holds the bytes
  \<open>8k .. 8k+7\<close>. A pointer is its byte offset from \<^verbatim>\<open>mem\<close>, a 64-bit value; the null
  pointer is \<open>None\<close>.
\<close>

record allocator =
  mem :: "64 word list"
  bitmap :: "8 word list"
  blocks :: "64 word"
  poison :: "8 word"
  err_out :: "string list"

text \<open>
  What C leaves undefined is a value of the model: a shift of the 32-bit \<^verbatim>\<open>int\<close> 1 by 31
  or more, an access outside the bitmap or outside the pool as \<^verbatim>\<open>alloc_init\<close> asked for
  them, a \<^verbatim>\<open>uint64_t\<close> access at an offset that is no multiple of 8.
\<close>

datatype fault = ShiftUndefined | BitmapOutOfBounds | PoolOutOfBounds | Misaligned

definition uninitialized :: allocator where
  "uninitialized = \<lparr>mem = [], bitmap = [], blocks = 0, poison = 0, err_out = []\<rparr>"

text \<open>
  \<^verbatim>\<open>alloc_init\<close> as compiled without \<^verbatim>\<open>_MSC_VER\<close>. The two \<^verbatim>\<open>mmap\<close> calls are answered by
  the environment: \<open>Mapped\<close>, an anonymous mapping, zero-filled, or \<open>MapFailed e\<close>, where
  \<open>e\<close> is the text \<^verbatim>\<open>perror\<close> prints for \<^verbatim>\<open>errno\<close>. A mapping of length 0 is always
  refused (\<^verbatim>\<open>EINVAL\<close>).
  \<^item> When the pool is refused, the two lines are written and the function returns:
    \<^verbatim>\<open>mem\<close> is \<^verbatim>\<open>MAP_FAILED\<close>, which has no cell that can be accessed, and \<^verbatim>\<open>bitmap\<close> and
    \<^verbatim>\<open>blocks\<close> are what they were.
  \<^item> When the bitmap is refused, the function does not return early: it goes on to
    \<^verbatim>\<open>memset(bitmap, 0, sz)\<close> with \<^verbatim>\<open>bitmap = MAP_FAILED\<close> and \<open>sz \<ge> 1\<close>, a write
    outside any bitmap.
\<close>

datatype mmap_result = Mapped | MapFailed string

definition heap_failed_msg :: string where
  "heap_failed_msg = ''alloc_init(): could not allocate heap'' @ [CHR 0x0A]"

definition perror_mmap :: "string \<Rightarrow> string" where
  "perror_mmap e = ''mmap: '' @ e @ [CHR 0x0A]"

definition alloc_init ::
  "allocator \<Rightarrow> 64 word \<Rightarrow> mmap_result \<Rightarrow> mmap_result \<Rightarrow> fault + allocator" where
  "alloc_init st pool0 heap_map bitmap_map =
     (let pool = (if pool0 mod 16 \<noteq> 0 then pool0 + (16 - pool0 mod 16) else pool0)
      in case (if pool = 0 then MapFailed ''Invalid argument'' else heap_map) of
           MapFailed e \<Rightarrow>
             Inr (st\<lparr>mem := [], err_out := err_out st @ [heap_failed_msg, perror_mmap e]\<rparr>)
         | Mapped \<Rightarrow>
             (let sz = (if pool div 128 = 0 then 1 else pool div 128)
              in case bitmap_map of
                   MapFailed e \<Rightarrow> Inl BitmapOutOfBounds
                 | Mapped \<Rightarrow>
                     Inr (st\<lparr>mem := replicate (unat pool div 8) 0,
                             bitmap := replicate (unat sz) 0,
                             blocks := pool div 16\<rparr>)))"

section \<open>The bitmap macros\<close>

text \<open>
  \<^verbatim>\<open>#define IS_FREE(blkid) (bitmap[blkid / 8] & (((uint8_t)1) << blkid)) == 0\<close>
  Both operands of \<^verbatim>\<open>&\<close> are promoted to \<^verbatim>\<open>int\<close>.
\<close>

definition IS_FREE :: "allocator \<Rightarrow> nat \<Rightarrow> fault + bool" where
  "IS_FREE st blkid =
     (if length (bitmap st) \<le> blkid div 8 then Inl BitmapOutOfBounds
      else if 31 \<le> blkid then Inl ShiftUndefined
      else Inr ((ucast (bitmap st ! (blkid div 8)) AND push_bit blkid (1 :: 32 word)) = 0))"

text \<open>
  \<^verbatim>\<open>#define MARK(blkid) (bitmap[blkid / 8] ^= ((((uint8_t)1) << blkid) - 1))\<close>
  The exclusive or is computed on \<^verbatim>\<open>int\<close> and stored back into the byte.
\<close>

definition MARK :: "allocator \<Rightarrow> nat \<Rightarrow> fault + allocator" where
  "MARK st blkid =
     (if length (bitmap st) \<le> blkid div 8 then Inl BitmapOutOfBounds
      else if 31 \<le> blkid then Inl ShiftUndefined
      else Inr (st\<lparr>bitmap := (bitmap st)[blkid div 8 :=
                  ucast ((ucast (bitmap st ! (blkid div 8)) :: 32 word)
                         XOR (push_bit blkid (1 :: 32 word) - 1))]\<rparr>))"

section \<open>Access to the pool\<close>

definition read64 :: "allocator \<Rightarrow> 64 word \<Rightarrow> fault + 64 word" where
  "read64 st off =
     (if unat off mod 8 \<noteq> 0 then Inl Misaligned
      else if length (mem st) \<le> unat off div 8 then Inl PoolOutOfBounds
      else Inr (mem st ! (unat off div 8)))"

definition write64 :: "allocator \<Rightarrow> 64 word \<Rightarrow> 64 word \<Rightarrow> fault + allocator" where
  "write64 st off v =
     (if unat off mod 8 \<noteq> 0 then Inl Misaligned
      else if length (mem st) \<le> unat off div 8 then Inl PoolOutOfBounds
      else Inr (st\<lparr>mem := (mem st)[unat off div 8 := v]\<rparr>))"

section \<open>alloc\<close>

definition round16 :: "64 word \<Rightarrow> 64 word" where
  "round16 sz = (if sz mod 16 \<noteq> 0 then sz + (16 - sz mod 16) else sz)"

definition blk_of :: "64 word \<Rightarrow> 64 word" where
  "blk_of sz = round16 sz div 16 + 2"

text \<open>The inner loop \<^verbatim>\<open>for (j = i; j < i + blk; j++) if (!IS_FREE(j)) goto next;\<close>\<close>

function check_run :: "allocator \<Rightarrow> nat \<Rightarrow> nat \<Rightarrow> fault + bool" where
  "check_run st j bound =
     (if j < bound then
        (case IS_FREE st j of
           Inl e \<Rightarrow> Inl e
         | Inr free \<Rightarrow> if free then check_run st (Suc j) bound else Inr False)
      else Inr True)"
  by pat_completeness auto
termination
  by (relation "measure (\<lambda>(st, j, bound). bound - j)") auto

text \<open>
  The outer loop \<^verbatim>\<open>for (i = 0; i < blocks; i++)\<close> up to the point where a run is
  accepted: the index of the first block \<open>i\<close> that passes \<^verbatim>\<open>IS_FREE(i)\<close> and the inner
  loop, \<open>None\<close> when the loop runs to its end.
\<close>

function find_run :: "allocator \<Rightarrow> nat \<Rightarrow> 64 word \<Rightarrow> fault + nat option" where
  "find_run st i blk =
     (if i < unat (blocks st) then
        (case IS_FREE st i of
           Inl e \<Rightarrow> Inl e
         | Inr free \<Rightarrow>
             if free then
               (case check_run st i (unat (word_of_nat i + blk)) of
                  Inl e \<Rightarrow> Inl e
                | Inr ok \<Rightarrow> if ok then Inr (Some i) else find_run st (Suc i) blk)
             else find_run st (Suc i) blk)
      else Inr None)"
  by pat_completeness auto
termination
  by (relation "measure (\<lambda>(st, i, blk). unat (blocks st) - i)") auto

text \<open>The marking loop \<^verbatim>\<open>for (j = ...; j < bound; j++) MARK(j);\<close> of both functions.\<close>

function mark_run :: "allocator \<Rightarrow> nat \<Rightarrow> nat \<Rightarrow> fault + allocator" where
  "mark_run st j bound =
     (if j < bound then
        (case MARK st j of
           Inl e \<Rightarrow> Inl e
         | Inr st' \<Rightarrow> mark_run st' (Suc j) bound)
      else Inr st)"
  by pat_completeness auto
termination
  by (relation "measure (\<lambda>(st, j, bound). bound - j)") auto

declare check_run.simps [simp del] find_run.simps [simp del] mark_run.simps [simp del]

definition exhausted_msg :: string where
  "exhausted_msg = ''Pool has been exhausted...Cannot allocate more memory''"

text \<open>
  The body of the outer loop once the run at \<open>i\<close> is accepted: mark with the bound
  \<^verbatim>\<open>i + blk + 1\<close>, write the header and the footer, return \<^verbatim>\<open>mem + ((i + 1) * 16)\<close>.
  \<open>now\<close> is the value \<^verbatim>\<open>time(0)\<close> returns to this call.
\<close>

definition alloc_at :: "allocator \<Rightarrow> nat \<Rightarrow> 64 word \<Rightarrow> 64 word \<Rightarrow> fault + (64 word option \<times> allocator)" where
  "alloc_at st i blk now =
     (case mark_run st i (unat (word_of_nat i + blk + 1)) of
        Inl e \<Rightarrow> Inl e
      | Inr st1 \<Rightarrow>
     (case write64 st1 (word_of_nat i * 16) blk of
        Inl e \<Rightarrow> Inl e
      | Inr st2 \<Rightarrow>
     (case write64 st2 (word_of_nat i * 16 + 8) now of
        Inl e \<Rightarrow> Inl e
      | Inr st3 \<Rightarrow>
     (case write64 st3 (word_of_nat i * 16 + (blk - 1) * 16) now of
        Inl e \<Rightarrow> Inl e
      | Inr st4 \<Rightarrow>
     (case write64 st4 (word_of_nat i * 16 + (blk - 1) * 16 + 8) now of
        Inl e \<Rightarrow> Inl e
      | Inr st5 \<Rightarrow> Inr (Some ((word_of_nat i + 1) * 16), st5))))))"

definition alloc :: "allocator \<Rightarrow> 64 word \<Rightarrow> 64 word \<Rightarrow> fault + (64 word option \<times> allocator)" where
  "alloc st sz now =
     (let blk = blk_of sz in
      if poison st \<noteq> 0 then Inr (None, st)
      else
        (case find_run st 0 blk of
           Inl e \<Rightarrow> Inl e
         | Inr None \<Rightarrow> Inr (None, st\<lparr>err_out := err_out st @ [exhausted_msg]\<rparr>)
         | Inr (Some i) \<Rightarrow> alloc_at st i blk now))"

section \<open>free_mem and clear_posion\<close>

definition poisoned_msg :: string where
  "poisoned_msg = ''Invalid pointer or buffer overrun detected..Poisoning ourself''"

definition free_mem :: "allocator \<Rightarrow> 64 word \<Rightarrow> fault + allocator" where
  "free_mem st data =
     (case read64 st (data - 16) of
        Inl e \<Rightarrow> Inl e
      | Inr blk \<Rightarrow>
     (case read64 st (data - 8) of
        Inl e \<Rightarrow> Inl e
      | Inr magic \<Rightarrow>
     (case read64 st (data + (blk - 2) * 16) of
        Inl e \<Rightarrow> Inl e
      | Inr guard \<Rightarrow>
          if magic \<noteq> guard
          then Inr (st\<lparr>poison := 1, err_out := err_out st @ [poisoned_msg]\<rparr>)
          else (let offset = (data - 16) div 16
                in mark_run st (unat offset) (unat (offset + blk + 1))))))"

definition clear_posion :: "allocator \<Rightarrow> allocator" where
  "clear_posion st = st\<lparr>poison := 0\<rparr>"

section \<open>What the macros compute\<close>

text \<open>
  Wherever the shift is defined and the byte exists, \<open>IS_FREE\<close> looks at bit \<open>blkid\<close>
  of a value below 256: for every block from 8 on the answer is "free", whatever the
  bitmap holds.
\<close>

lemma IS_FREE_from_8:
  assumes "8 \<le> j" and "j < 31" and "j div 8 < length (bitmap st)"
  shows "IS_FREE st j = Inr True"
proof -
  have "(ucast (b :: 8 word) :: 32 word) AND push_bit j 1 = 0" for b
  proof (rule bit_eqI)
    fix n
    assume "possible_bit TYPE(32 word) n"
    show "bit ((ucast b :: 32 word) AND push_bit j 1) n = bit (0 :: 32 word) n"
      using assms(1) by (auto simp: bit_simps dest: bit_imp_le_length)
  qed
  with assms show ?thesis
    by (simp add: IS_FREE_def)
qed

text \<open>\<open>MARK\<close> toggles the bits below \<open>blkid\<close> in the byte \<open>blkid / 8\<close>; it sets no bit.\<close>

lemma MARK_toggles_below:
  assumes "j < 31" and "j div 8 < length (bitmap st)"
  shows "MARK st j =
    Inr (st\<lparr>bitmap := (bitmap st)[j div 8 := bitmap st ! (j div 8) XOR mask j]\<rparr>)"
proof -
  have "(ucast ((ucast (b :: 8 word) :: 32 word) XOR (push_bit j 1 - 1)) :: 8 word) =
      b XOR mask j" for b
  proof (rule bit_eqI)
    fix n
    assume "possible_bit TYPE(8 word) n"
    then have n: "n < 8"
      by (simp add: possible_bit_word)
    have "push_bit j (1 :: 32 word) - 1 = mask j"
      by (simp add: mask_eq_exp_minus_1 push_bit_eq_mult)
    with n show "bit (ucast ((ucast b :: 32 word) XOR (push_bit j 1 - 1)) :: 8 word) n =
        bit (b XOR mask j) n"
      by (auto simp: bit_simps)
  qed
  with assms show ?thesis
    by (simp add: MARK_def)
qed

section \<open>The size rounding of alloc\<close>

lemma unat_round16:
  assumes "sz mod 16 \<noteq> 0"
  shows "unat (round16 sz) = (unat sz + (16 - unat sz mod 16)) mod 2 ^ 64"
proof -
  have a: "unat (sz mod 16) = unat sz mod 16"
    by (simp add: unat_mod)
  have "sz mod 16 < 16"
    by (rule word_mod_less_divisor) simp
  then have b: "sz mod 16 \<le> 16"
    by simp
  have c: "unat (16 - sz mod 16) = 16 - unat sz mod 16"
    using unat_sub [OF b] a by simp
  have "unat (sz + (16 - sz mod 16)) = (unat sz + unat (16 - sz mod 16)) mod 2 ^ 64"
    by (simp add: unat_word_ariths)
  with c assms show ?thesis
    by (simp add: round16_def)
qed

lemma round16_top:
  assumes "2 ^ 64 - 16 < unat sz"
  shows "round16 sz = 0"
proof -
  define n where "n = unat sz"
  have "n < 2 ^ 64"
    unfolding n_def using unsigned_less [of sz, where ?'a = nat] by simp
  then have hi: "n < 18446744073709551616"
    by simp
  from assms have lo: "18446744073709551600 < n"
    by (simp add: n_def)
  define k where "k = n - 18446744073709551600"
  from lo hi have k: "0 < k" "k < 16" and n: "n = k + 16 * 1152921504606846975"
    by (simp_all add: k_def)
  have "(k + 16 * 1152921504606846975) mod 16 = k mod 16"
    by (rule mod_mult_self2)
  with k have nk: "n mod 16 = k"
    by (subst n) simp
  with k have m: "n mod 16 \<noteq> 0"
    by simp
  have u: "unat (sz mod 16) \<noteq> 0"
    using m by (simp add: unat_mod n_def)
  have nz: "sz mod 16 \<noteq> 0"
  proof
    assume "sz mod 16 = 0"
    then have "unat (sz mod 16) = unat (0 :: 64 word)"
      by (rule arg_cong)
    with u show False
      by simp
  qed
  from nk k n have "n + (16 - n mod 16) = 18446744073709551616"
    by linarith
  then have "(n + (16 - n mod 16)) mod 18446744073709551616 = 0"
    by simp
  with unat_round16 [OF nz] have "unat (round16 sz) = 0"
    by (simp add: n_def)
  then show ?thesis
    by (simp add: unat_eq_0)
qed

lemma blk_of_top: "2 ^ 64 - 16 < unat sz \<Longrightarrow> blk_of sz = 2"
  by (simp add: blk_of_def round16_top)

lemma blk_of_0: "blk_of 0 = 2"
  by (simp add: blk_of_def round16_def)

lemma alloc_top: "2 ^ 64 - 16 < unat sz \<Longrightarrow> alloc st sz now = alloc st 0 now"
  by (simp add: alloc_def blk_of_top blk_of_0)

section \<open>Allocation from a poisoned or uninitialized allocator\<close>

lemma find_run_no_blocks: "blocks st = 0 \<Longrightarrow> find_run st 0 blk = Inr None"
  by (simp add: find_run.simps [of st 0 blk])

text \<open>
  C8. A poisoned allocator returns the null pointer for every size and changes nothing.
  An allocator on which \<open>alloc_init\<close> has not run, or has run and was refused the pool,
  has \<open>blocks = 0\<close>: the search loop has no iteration, the null pointer is returned for every size, and the only effect is
  the message on the error stream; pool and bitmap are untouched.
\<close>

theorem alloc_poisoned_uninit_C8:
  "(poison st \<noteq> 0 \<longrightarrow> alloc st sz now = Inr (None, st)) \<and>
   (poison st = 0 \<and> blocks st = 0 \<longrightarrow>
      alloc st sz now = Inr (None, st\<lparr>err_out := err_out st @ [exhausted_msg]\<rparr>))"
  by (simp add: alloc_def Let_def find_run_no_blocks)

theorem alloc_poisoned_uninit_C8_witness:
  "poison \<lparr>mem = replicate 16 0, bitmap = [0], blocks = 8, poison = 1, err_out = []\<rparr> \<noteq> 0 \<and>
   alloc \<lparr>mem = replicate 16 0, bitmap = [0], blocks = 8, poison = 1, err_out = []\<rparr> 16 77 =
     Inr (None, \<lparr>mem = replicate 16 0, bitmap = [0], blocks = 8, poison = 1, err_out = []\<rparr>) \<and>
   poison uninitialized = 0 \<and> blocks uninitialized = 0 \<and>
   alloc uninitialized 16 77 = Inr (None, uninitialized\<lparr>err_out := [exhausted_msg]\<rparr>) \<and>
   alloc_init uninitialized 0 Mapped Mapped =
     Inr \<lparr>mem = [], bitmap = [], blocks = 0, poison = 0,
          err_out = [heap_failed_msg, perror_mmap ''Invalid argument'']\<rparr> \<and>
   alloc \<lparr>mem = [], bitmap = [], blocks = 0, poison = 0,
          err_out = [heap_failed_msg, perror_mmap ''Invalid argument'']\<rparr> 16 77 =
     Inr (None, \<lparr>mem = [], bitmap = [], blocks = 0, poison = 0,
                 err_out = [heap_failed_msg, perror_mmap ''Invalid argument'', exhausted_msg]\<rparr>)"
proof -
  let ?F = "\<lparr>mem = [] :: 64 word list, bitmap = [], blocks = 0, poison = 0,
          err_out = [heap_failed_msg, perror_mmap ''Invalid argument'']\<rparr>"
  have p: "poison \<lparr>mem = replicate 16 0, bitmap = [0], blocks = 8, poison = 1, err_out = []\<rparr> \<noteq> 0"
    by simp
  have u: "poison uninitialized = 0 \<and> blocks uninitialized = 0"
    by (simp add: uninitialized_def)
  have i: "alloc_init uninitialized 0 Mapped Mapped = Inr ?F"
    by (simp add: alloc_init_def uninitialized_def)
  have f: "poison ?F = 0 \<and> blocks ?F = 0"
    by simp
  from alloc_poisoned_uninit_C8 [of "\<lparr>mem = replicate 16 0, bitmap = [0], blocks = 8, poison = 1, err_out = []\<rparr>" 16 77]
       alloc_poisoned_uninit_C8 [of uninitialized 16 77]
       alloc_poisoned_uninit_C8 [of ?F 16 77] p u i f
  show ?thesis
    by (simp add: uninitialized_def)
qed

section \<open>Release\<close>

lemma MARK_frame:
  "MARK st j = Inr st' \<Longrightarrow>
     mem st' = mem st \<and> blocks st' = blocks st \<and> poison st' = poison st \<and>
     err_out st' = err_out st \<and> length (bitmap st') = length (bitmap st)"
  by (auto simp: MARK_def split: if_splits)

lemma mark_run_frame:
  "mark_run st j bound = Inr st' \<Longrightarrow>
     mem st' = mem st \<and> blocks st' = blocks st \<and> poison st' = poison st \<and>
     err_out st' = err_out st \<and> length (bitmap st') = length (bitmap st)"
proof (induction st j bound rule: mark_run.induct)
  case (1 st j bound)
  show ?case
  proof (cases "j < bound")
    case False
    with "1.prems" show ?thesis
      by (simp add: mark_run.simps [of st j bound])
  next
    case True
    with "1.prems" obtain st1 where m: "MARK st j = Inr st1"
      and r: "mark_run st1 (Suc j) bound = Inr st'"
      by (auto simp: mark_run.simps [of st j bound] split: sum.splits)
    from "1.IH" [OF True m r] MARK_frame [OF m] show ?thesis
      by simp
  qed
qed

lemma free_mem_guard:
  assumes "read64 st (data - 16) = Inr blk" and "read64 st (data - 8) = Inr magic"
  shows "free_mem st data =
     (case read64 st (data + (blk - 2) * 16) of
        Inl e \<Rightarrow> Inl e
      | Inr guard \<Rightarrow>
          if magic \<noteq> guard
          then Inr (st\<lparr>poison := 1, err_out := err_out st @ [poisoned_msg]\<rparr>)
          else mark_run st (unat ((data - 16) div 16)) (unat ((data - 16) div 16 + blk + 1)))"
  unfolding free_mem_def Let_def using assms by simp

text \<open>
  C5. When the two header words and the footer word of the released pointer can be read
  and the footer word differs from the header's magic, \<open>free_mem\<close> sets the poison
  flag, writes its message to the error stream and returns: the result is the state it
  was called in with only \<open>poison\<close> and \<open>err_out\<close> updated, so the bitmap is the one
  before the call and no bit is cleared.
\<close>

theorem free_mem_mismatch_C5:
  assumes "read64 st (data - 16) = Inr blk"
    and "read64 st (data - 8) = Inr magic"
    and "read64 st (data + (blk - 2) * 16) = Inr guard"
    and "guard \<noteq> magic"
  shows "free_mem st data = Inr (st\<lparr>poison := 1, err_out := err_out st @ [poisoned_msg]\<rparr>) \<and>
         bitmap (st\<lparr>poison := 1, err_out := err_out st @ [poisoned_msg]\<rparr>) = bitmap st"
  using assms by (auto simp: free_mem_guard)

theorem free_mem_mismatch_C5_witness:
  "read64 \<lparr>mem = [3, 77, 0, 0, 99, 77, 0, 0, 0, 0, 0, 0, 0, 0, 0, 0],
           bitmap = [5], blocks = 8, poison = 0, err_out = []\<rparr> (16 - 16) = Inr 3 \<and>
   read64 \<lparr>mem = [3, 77, 0, 0, 99, 77, 0, 0, 0, 0, 0, 0, 0, 0, 0, 0],
           bitmap = [5], blocks = 8, poison = 0, err_out = []\<rparr> (16 - 8) = Inr 77 \<and>
   read64 \<lparr>mem = [3, 77, 0, 0, 99, 77, 0, 0, 0, 0, 0, 0, 0, 0, 0, 0],
           bitmap = [5], blocks = 8, poison = 0, err_out = []\<rparr> (16 + (3 - 2) * 16) = Inr 99 \<and>
   (99 :: 64 word) \<noteq> 77 \<and>
   free_mem \<lparr>mem = [3, 77, 0, 0, 99, 77, 0, 0, 0, 0, 0, 0, 0, 0, 0, 0],
             bitmap = [5], blocks = 8, poison = 0, err_out = []\<rparr> 16 =
     Inr \<lparr>mem = [3, 77, 0, 0, 99, 77, 0, 0, 0, 0, 0, 0, 0, 0, 0, 0],
          bitmap = [5], blocks = 8, poison = 1, err_out = [poisoned_msg]\<rparr>"
proof -
  let ?S = "\<lparr>mem = [3, 77, 0, 0, 99, 77, 0, 0, 0, 0, 0, 0, 0, 0, 0, 0] :: 64 word list,
           bitmap = [5], blocks = 8, poison = 0, err_out = []\<rparr>"
  have h1: "read64 ?S (16 - 16) = Inr 3"
    by (simp add: read64_def)
  have h2: "read64 ?S (16 - 8) = Inr 77"
    by (simp add: read64_def)
  have h3: "read64 ?S (16 + (3 - 2) * 16) = Inr 99"
    by (simp add: read64_def)
  have h4: "(99 :: 64 word) \<noteq> 77"
    by simp
  from free_mem_mismatch_C5 [OF h1 h2 h3 h4] h1 h2 h3 h4 show ?thesis
    by simp
qed

text \<open>
  The stored block count is not examined before the footer is read. A request of 0 bytes
  stores the count 2; its release reads the footer, finds the magic, and toggles bitmap
  bits without poisoning. With the count 1000 in the header of an 8-block pool the footer
  is looked for 15968 bytes behind the pointer, outside the pool.
\<close>

theorem free_mem_validation_C4_counterexample:
  "alloc_init uninitialized 128 Mapped Mapped =
     Inr \<lparr>mem = replicate 16 0, bitmap = [0], blocks = 8, poison = 0, err_out = []\<rparr> \<and>
   alloc \<lparr>mem = replicate 16 0, bitmap = [0], blocks = 8, poison = 0, err_out = []\<rparr> 0 77 =
     Inr (Some 16, \<lparr>mem = [2, 77, 77, 77, 0, 0, 0, 0, 0, 0, 0, 0, 0, 0, 0, 0],
                    bitmap = [2], blocks = 8, poison = 0, err_out = []\<rparr>) \<and>
   read64 \<lparr>mem = [2, 77, 77, 77, 0, 0, 0, 0, 0, 0, 0, 0, 0, 0, 0, 0],
           bitmap = [2], blocks = 8, poison = 0, err_out = []\<rparr> (16 - 16) = Inr 2 \<and>
   free_mem \<lparr>mem = [2, 77, 77, 77, 0, 0, 0, 0, 0, 0, 0, 0, 0, 0, 0, 0],
             bitmap = [2], blocks = 8, poison = 0, err_out = []\<rparr> 16 =
     Inr \<lparr>mem = [2, 77, 77, 77, 0, 0, 0, 0, 0, 0, 0, 0, 0, 0, 0, 0],
          bitmap = [0], blocks = 8, poison = 0, err_out = []\<rparr> \<and>
   read64 \<lparr>mem = [1000, 77, 77, 77, 0, 0, 0, 0, 0, 0, 0, 0, 0, 0, 0, 0],
           bitmap = [2], blocks = 8, poison = 0, err_out = []\<rparr> (16 - 16) = Inr 1000 \<and>
   free_mem \<lparr>mem = [1000, 77, 77, 77, 0, 0, 0, 0, 0, 0, 0, 0, 0, 0, 0, 0],
             bitmap = [2], blocks = 8, poison = 0, err_out = []\<rparr> 16 = Inl PoolOutOfBounds"
proof -
  let ?S = "\<lparr>mem = [2, 77, 77, 77, 0, 0, 0, 0, 0, 0, 0, 0, 0, 0, 0, 0] :: 64 word list,
           bitmap = [2], blocks = 8, poison = 0, err_out = []\<rparr>"
  let ?A = "\<lparr>mem = [1000, 77, 77, 77, 0, 0, 0, 0, 0, 0, 0, 0, 0, 0, 0, 0] :: 64 word list,
           bitmap = [2], blocks = 8, poison = 0, err_out = []\<rparr>"
  have f0: "alloc_init uninitialized 128 Mapped Mapped =
      Inr \<lparr>mem = replicate 16 0, bitmap = [0], blocks = 8, poison = 0, err_out = []\<rparr>"
    by code_simp
  have f1: "alloc \<lparr>mem = replicate 16 0, bitmap = [0], blocks = 8, poison = 0, err_out = []\<rparr> 0 77 = Inr (Some 16, ?S)"
    by code_simp
  have f2: "read64 ?S (16 - 16) = Inr 2"
    by (simp add: read64_def)
  have "free_mem ?S 16 = Inr (?S\<lparr>bitmap := [0]\<rparr>)"
    by code_simp
  then have f3: "free_mem ?S 16 =
      Inr \<lparr>mem = [2, 77, 77, 77, 0, 0, 0, 0, 0, 0, 0, 0, 0, 0, 0, 0],
           bitmap = [0], blocks = 8, poison = 0, err_out = []\<rparr>"
    by simp
  have f4: "read64 ?A (16 - 16) = Inr 1000"
    by (simp add: read64_def)
  have f5: "free_mem ?A 16 = Inl PoolOutOfBounds"
    by (simp add: free_mem_def read64_def)
  show ?thesis
    by (intro conjI f0 f1 f2 f3 f4 f5)
qed

text \<open>
  C4, as the code has it. \<open>free_mem\<close> makes no plausibility check of the stored block
  count. Once the two header words are read, the footer word is read at
  \<open>data + (blk - 2) * 16\<close> (64-bit arithmetic) for every value of \<open>blk\<close>. Where that
  location cannot be read (outside the pool, or misaligned) the access is the outcome of
  the call. Where it can, a word different from the header's magic poisons the allocator
  and leaves everything else as it was, and a word equal to it is never treated as
  corruption: a call that returns leaves the poison flag and the error stream unchanged.
\<close>

theorem free_mem_no_validation_C4:
  assumes "read64 st (data - 16) = Inr blk" and "read64 st (data - 8) = Inr magic"
  shows "(\<forall>e. read64 st (data + (blk - 2) * 16) = Inl e \<longrightarrow> free_mem st data = Inl e) \<and>
         (\<forall>guard. read64 st (data + (blk - 2) * 16) = Inr guard \<longrightarrow>
            (guard \<noteq> magic \<longrightarrow>
               free_mem st data =
                 Inr (st\<lparr>poison := 1, err_out := err_out st @ [poisoned_msg]\<rparr>)) \<and>
            (guard = magic \<longrightarrow>
               (\<forall>st'. free_mem st data = Inr st' \<longrightarrow>
                  poison st' = poison st \<and> err_out st' = err_out st)))"
proof -
  have "free_mem st data = Inl e" if "read64 st (data + (blk - 2) * 16) = Inl e" for e
    using that by (simp add: free_mem_guard [OF assms])
  moreover have "free_mem st data =
      Inr (st\<lparr>poison := 1, err_out := err_out st @ [poisoned_msg]\<rparr>)"
    if "read64 st (data + (blk - 2) * 16) = Inr guard" and "guard \<noteq> magic" for guard
    using that by (auto simp: free_mem_guard [OF assms])
  moreover have "poison st' = poison st \<and> err_out st' = err_out st"
    if "read64 st (data + (blk - 2) * 16) = Inr magic" and "free_mem st data = Inr st'" for st'
  proof -
    from that have "mark_run st (unat ((data - 16) div 16))
        (unat ((data - 16) div 16 + blk + 1)) = Inr st'"
      by (simp add: free_mem_guard [OF assms])
    from mark_run_frame [OF this] show ?thesis
      by simp
  qed
  ultimately show ?thesis
    by blast
qed

theorem free_mem_no_validation_C4_witness:
  "read64 \<lparr>mem = [1000, 77, 77, 77, 0, 0, 0, 0, 0, 0, 0, 0, 0, 0, 0, 0],
           bitmap = [2], blocks = 8, poison = 0, err_out = []\<rparr> (16 - 16) = Inr 1000 \<and>
   read64 \<lparr>mem = [1000, 77, 77, 77, 0, 0, 0, 0, 0, 0, 0, 0, 0, 0, 0, 0],
           bitmap = [2], blocks = 8, poison = 0, err_out = []\<rparr> (16 - 8) = Inr 77 \<and>
   read64 \<lparr>mem = [1000, 77, 77, 77, 0, 0, 0, 0, 0, 0, 0, 0, 0, 0, 0, 0],
           bitmap = [2], blocks = 8, poison = 0, err_out = []\<rparr> (16 + (1000 - 2) * 16) =
     Inl PoolOutOfBounds \<and>
   free_mem \<lparr>mem = [1000, 77, 77, 77, 0, 0, 0, 0, 0, 0, 0, 0, 0, 0, 0, 0],
             bitmap = [2], blocks = 8, poison = 0, err_out = []\<rparr> 16 = Inl PoolOutOfBounds \<and>
   read64 \<lparr>mem = [2, 77, 99, 77, 0, 0, 0, 0, 0, 0, 0, 0, 0, 0, 0, 0],
           bitmap = [2], blocks = 8, poison = 0, err_out = []\<rparr> (16 - 16) = Inr 2 \<and>
   read64 \<lparr>mem = [2, 77, 99, 77, 0, 0, 0, 0, 0, 0, 0, 0, 0, 0, 0, 0],
           bitmap = [2], blocks = 8, poison = 0, err_out = []\<rparr> (16 - 8) = Inr 77 \<and>
   read64 \<lparr>mem = [2, 77, 99, 77, 0, 0, 0, 0, 0, 0, 0, 0, 0, 0, 0, 0],
           bitmap = [2], blocks = 8, poison = 0, err_out = []\<rparr> (16 + (2 - 2) * 16) = Inr 99 \<and>
   (99 :: 64 word) \<noteq> 77 \<and>
   free_mem \<lparr>mem = [2, 77, 99, 77, 0, 0, 0, 0, 0, 0, 0, 0, 0, 0, 0, 0],
             bitmap = [2], blocks = 8, poison = 0, err_out = []\<rparr> 16 =
     Inr \<lparr>mem = [2, 77, 99, 77, 0, 0, 0, 0, 0, 0, 0, 0, 0, 0, 0, 0],
          bitmap = [2], blocks = 8, poison = 1, err_out = [poisoned_msg]\<rparr>"
proof -
  let ?A = "\<lparr>mem = [1000, 77, 77, 77, 0, 0, 0, 0, 0, 0, 0, 0, 0, 0, 0, 0] :: 64 word list,
           bitmap = [2], blocks = 8, poison = 0, err_out = []\<rparr>"
  let ?B = "\<lparr>mem = [2, 77, 99, 77, 0, 0, 0, 0, 0, 0, 0, 0, 0, 0, 0, 0] :: 64 word list,
           bitmap = [2], blocks = 8, poison = 0, err_out = []\<rparr>"
  have a1: "read64 ?A (16 - 16) = Inr 1000" and a2: "read64 ?A (16 - 8) = Inr 77"
    and a3: "read64 ?A (16 + (1000 - 2) * 16) = Inl PoolOutOfBounds"
    by (simp_all add: read64_def)
  have b1: "read64 ?B (16 - 16) = Inr 2" and b2: "read64 ?B (16 - 8) = Inr 77"
    and b3: "read64 ?B (16 + (2 - 2) * 16) = Inr 99"
    by (simp_all add: read64_def)
  from free_mem_no_validation_C4 [OF a1 a2] a3
  have fa: "free_mem ?A 16 = Inl PoolOutOfBounds"
    by blast
  from free_mem_no_validation_C4 [OF b1 b2] b3
  have fb: "free_mem ?B 16 = Inr (?B\<lparr>poison := 1, err_out := err_out ?B @ [poisoned_msg]\<rparr>)"
    by simp
  from a1 a2 a3 fa b1 b2 b3 fb show ?thesis
    by simp
qed

section \<open>Marking and search on concrete pools\<close>

text \<open>
  C1. A successful allocation should mark exactly the blocks \<open>[i, i + blk)\<close> of its run.
  On a fresh pool of 128 bytes a request of 16 bytes needs 3 blocks and takes the run at
  block 0. The marking loop runs over \<open>j = 0, 1, 2, 3\<close>, and \<open>MARK(j)\<close> toggles the bits
  below \<open>j\<close> instead of setting bit \<open>j\<close>: the bitmap byte ends as 5 (binary 101), where
  marking the run gives 7. Block 1, the payload, is left unmarked.
\<close>

theorem alloc_marks_C1:
  "alloc_init uninitialized 128 Mapped Mapped =
     Inr \<lparr>mem = replicate 16 0, bitmap = [0], blocks = 8, poison = 0, err_out = []\<rparr> \<and>
   blk_of 16 = 3 \<and>
   find_run \<lparr>mem = replicate 16 0, bitmap = [0], blocks = 8, poison = 0, err_out = []\<rparr> 0 3 =
     Inr (Some 0) \<and>
   alloc \<lparr>mem = replicate 16 0, bitmap = [0], blocks = 8, poison = 0, err_out = []\<rparr> 16 now =
     Inr (Some 16,
          \<lparr>mem = [3, now, 0, 0, now, now, 0, 0, 0, 0, 0, 0, 0, 0, 0, 0],
           bitmap = [5], blocks = 8, poison = 0, err_out = []\<rparr>)"
  by code_simp

lemma alloc_at_ptr:
  "alloc_at st i blk now = Inr (p, st') \<Longrightarrow> p = Some ((word_of_nat i + 1) * 16)"
  by (auto simp: alloc_at_def split: sum.splits)

lemma unat_times16_mod: "unat (w * 16 :: 64 word) mod 16 = 0"
proof -
  have "unat (w * 16) = unat w * unat (16 :: 64 word) mod 2 ^ 64"
    using unat_word_ariths(2) [of w 16] by simp
  then have "unat (w * 16) = unat w * 16 mod 18446744073709551616"
    by simp
  moreover have "(16 :: nat) dvd 18446744073709551616"
    by simp
  ultimately have "unat (w * 16) mod 16 = unat w * 16 mod 16"
    by (simp only: mod_mod_cancel)
  then show ?thesis
    by simp
qed

text \<open>Every pointer \<open>alloc\<close> returns is a multiple of 16 bytes away from \<open>mem\<close>.\<close>

lemma alloc_ptr_aligned:
  assumes "alloc st sz now = Inr (Some p, st')"
  shows "unat p mod 16 = 0"
proof -
  from assms obtain i where "alloc_at st i (blk_of sz) now = Inr (Some p, st')"
    by (auto simp: alloc_def Let_def split: if_splits sum.splits option.splits)
  from alloc_at_ptr [OF this] have "p = (word_of_nat i + 1) * 16"
    by simp
  then show ?thesis
    by (simp only: unat_times16_mod)
qed

text \<open>
  C2. Successive allocations should return disjoint payload ranges. On a fresh pool of
  256 bytes a request of 128 bytes returns offset 16, payload bytes 16 to 143. The
  bitmap is then 85, 255, and \<open>IS_FREE\<close> tests bit \<open>blkid\<close> of the promoted byte, which
  is 0 for every block from 8 on. The next request, of 16 bytes, is given the run at
  block 7 and returns offset 128: its payload, bytes 128 to 143, lies inside the payload
  of the first allocation, and its footer overwrites the first one's footer. Both
  pointers are multiples of 16.
\<close>

theorem alloc_overlap_C2:
  "alloc_init uninitialized 256 Mapped Mapped =
     Inr \<lparr>mem = replicate 32 0, bitmap = [0, 0], blocks = 16, poison = 0, err_out = []\<rparr> \<and>
   alloc \<lparr>mem = replicate 32 0, bitmap = [0, 0], blocks = 16, poison = 0, err_out = []\<rparr> 128 t1 =
     Inr (Some 16,
          \<lparr>mem = [10, t1, 0, 0, 0, 0, 0, 0, 0, 0, 0, 0, 0, 0, 0, 0,
                  0, 0, t1, t1, 0, 0, 0, 0, 0, 0, 0, 0, 0, 0, 0, 0],
           bitmap = [85, 255], blocks = 16, poison = 0, err_out = []\<rparr>) \<and>
   alloc \<lparr>mem = [10, t1, 0, 0, 0, 0, 0, 0, 0, 0, 0, 0, 0, 0, 0, 0,
                 0, 0, t1, t1, 0, 0, 0, 0, 0, 0, 0, 0, 0, 0, 0, 0],
          bitmap = [85, 255], blocks = 16, poison = 0, err_out = []\<rparr> 16 t2 =
     Inr (Some 128,
          \<lparr>mem = [10, t1, 0, 0, 0, 0, 0, 0, 0, 0, 0, 0, 0, 0, 3, t2,
                  0, 0, t2, t2, 0, 0, 0, 0, 0, 0, 0, 0, 0, 0, 0, 0],
           bitmap = [42, 0], blocks = 16, poison = 0, err_out = []\<rparr>) \<and>
   {16 ..< 16 + 128} \<inter> {128 ..< 128 + 16} \<noteq> ({} :: nat set)"
proof -
  have "(128 :: nat) \<in> {16 ..< 16 + 128} \<inter> {128 ..< 128 + 16}"
    by simp
  then have "{16 ..< 16 + 128} \<inter> {128 ..< 128 + 16} \<noteq> ({} :: nat set)"
    by blast
  moreover have "alloc_init uninitialized 256 Mapped Mapped =
      Inr \<lparr>mem = replicate 32 0, bitmap = [0, 0], blocks = 16, poison = 0, err_out = []\<rparr>"
    by code_simp
  moreover have "alloc \<lparr>mem = replicate 32 0, bitmap = [0, 0], blocks = 16, poison = 0, err_out = []\<rparr> 128 t1 =
     Inr (Some 16,
          \<lparr>mem = [10, t1, 0, 0, 0, 0, 0, 0, 0, 0, 0, 0, 0, 0, 0, 0,
                  0, 0, t1, t1, 0, 0, 0, 0, 0, 0, 0, 0, 0, 0, 0, 0],
           bitmap = [85, 255], blocks = 16, poison = 0, err_out = []\<rparr>)"
    by code_simp
  moreover have "alloc \<lparr>mem = [10, t1, 0, 0, 0, 0, 0, 0, 0, 0, 0, 0, 0, 0, 0, 0,
                 0, 0, t1, t1, 0, 0, 0, 0, 0, 0, 0, 0, 0, 0, 0, 0],
          bitmap = [85, 255], blocks = 16, poison = 0, err_out = []\<rparr> 16 t2 =
     Inr (Some 128,
          \<lparr>mem = [10, t1, 0, 0, 0, 0, 0, 0, 0, 0, 0, 0, 0, 0, 3, t2,
                  0, 0, t2, t2, 0, 0, 0, 0, 0, 0, 0, 0, 0, 0, 0, 0],
           bitmap = [42, 0], blocks = 16, poison = 0, err_out = []\<rparr>)"
    by code_simp
  ultimately show ?thesis
    by blast
qed

text \<open>
  C3. A release whose guards match should clear exactly \<open>blockCount\<close> bits from the
  header's block on. On a pool of 128 bytes, allocate 16 bytes (run at block 0, 3
  blocks) and then 32 bytes (run at block 3, 4 blocks): the bitmap byte is 82 (binary
  1010010). Releasing the first pointer finds the header at block \<open>(16 - 16) / 16 = 0\<close>,
  runs \<open>MARK\<close> over \<open>j = 0, 1, 2, 3\<close> and toggles bits 0 and 2: the byte becomes 87
  (binary 1010111). Bits 0 and 2 are set by the release and bit 1 stays set; clearing
  the three bits of the run gives 80.
\<close>

theorem free_mem_marks_C3:
  "alloc_init uninitialized 128 Mapped Mapped =
     Inr \<lparr>mem = replicate 16 0, bitmap = [0], blocks = 8, poison = 0, err_out = []\<rparr> \<and>
   alloc \<lparr>mem = replicate 16 0, bitmap = [0], blocks = 8, poison = 0, err_out = []\<rparr> 16 t1 =
     Inr (Some 16,
          \<lparr>mem = [3, t1, 0, 0, t1, t1, 0, 0, 0, 0, 0, 0, 0, 0, 0, 0],
           bitmap = [5], blocks = 8, poison = 0, err_out = []\<rparr>) \<and>
   alloc \<lparr>mem = [3, t1, 0, 0, t1, t1, 0, 0, 0, 0, 0, 0, 0, 0, 0, 0],
          bitmap = [5], blocks = 8, poison = 0, err_out = []\<rparr> 32 t2 =
     Inr (Some 64,
          \<lparr>mem = [3, t1, 0, 0, t1, t1, 4, t2, 0, 0, 0, 0, t2, t2, 0, 0],
           bitmap = [82], blocks = 8, poison = 0, err_out = []\<rparr>) \<and>
   free_mem \<lparr>mem = [3, t1, 0, 0, t1, t1, 4, t2, 0, 0, 0, 0, t2, t2, 0, 0],
             bitmap = [82], blocks = 8, poison = 0, err_out = []\<rparr> 16 =
     Inr \<lparr>mem = [3, t1, 0, 0, t1, t1, 4, t2, 0, 0, 0, 0, t2, t2, 0, 0],
          bitmap = [87], blocks = 8, poison = 0, err_out = []\<rparr>"
  by code_simp

lemma write64_mem:
  "write64 st off v = Inr st' \<Longrightarrow>
     unat off mod 8 = 0 \<and> unat off div 8 < length (mem st) \<and>
     mem st' = (mem st)[unat off div 8 := v]"
  by (auto simp: write64_def split: if_splits)

lemma alloc_at_guard:
  assumes "alloc_at st i blk now = Inr (p, st')"
  shows "read64 st' (word_of_nat i * 16 + 8) = Inr now"
proof -
  from assms obtain st1 st2 st3 st4 where
    w2: "write64 st1 (word_of_nat i * 16) blk = Inr st2" and
    w3: "write64 st2 (word_of_nat i * 16 + 8) now = Inr st3" and
    w4: "write64 st3 (word_of_nat i * 16 + (blk - 1) * 16) now = Inr st4" and
    w5: "write64 st4 (word_of_nat i * 16 + (blk - 1) * 16 + 8) now = Inr st'"
    by (auto simp: alloc_at_def split: sum.splits)
  note m3 = write64_mem [OF w3] and m4 = write64_mem [OF w4] and m5 = write64_mem [OF w5]
  from m3 m4 m5 show ?thesis
    by (simp add: read64_def nth_list_update)
qed

text \<open>
  After every successful allocation the magic in the header, 8 bytes in front of the
  returned pointer, is the clock value of the call.
\<close>

lemma alloc_guard_is_clock:
  assumes "alloc st sz now = Inr (Some p, st')"
  shows "read64 st' (p - 8) = Inr now"
proof -
  from assms obtain i where a: "alloc_at st i (blk_of sz) now = Inr (Some p, st')"
    by (auto simp: alloc_def Let_def split: if_splits sum.splits option.splits)
  from alloc_at_ptr [OF a] have "p - 8 = word_of_nat i * 16 + 8"
    by (simp add: algebra_simps)
  then show ?thesis
    by (simp only: alloc_at_guard [OF a])
qed

text \<open>
  C6. The guards of two allocations should differ. The guard is the value of
  \<^verbatim>\<open>time(0)\<close>, a count of seconds: two allocations of 16 bytes made while the clock
  shows the same value \<open>now\<close> both succeed, and both headers, 8 bytes in front of the
  returned offsets 16 and 64, hold \<open>now\<close>.
\<close>

theorem same_tick_guard_C6:
  "alloc_init uninitialized 128 Mapped Mapped =
     Inr \<lparr>mem = replicate 16 0, bitmap = [0], blocks = 8, poison = 0, err_out = []\<rparr> \<and>
   alloc \<lparr>mem = replicate 16 0, bitmap = [0], blocks = 8, poison = 0, err_out = []\<rparr> 16 now =
     Inr (Some 16,
          \<lparr>mem = [3, now, 0, 0, now, now, 0, 0, 0, 0, 0, 0, 0, 0, 0, 0],
           bitmap = [5], blocks = 8, poison = 0, err_out = []\<rparr>) \<and>
   alloc \<lparr>mem = [3, now, 0, 0, now, now, 0, 0, 0, 0, 0, 0, 0, 0, 0, 0],
          bitmap = [5], blocks = 8, poison = 0, err_out = []\<rparr> 16 now =
     Inr (Some 64,
          \<lparr>mem = [3, now, 0, 0, now, now, 3, now, 0, 0, now, now, 0, 0, 0, 0],
           bitmap = [45], blocks = 8, poison = 0, err_out = []\<rparr>) \<and>
   read64 \<lparr>mem = [3, now, 0, 0, now, now, 3, now, 0, 0, now, now, 0, 0, 0, 0],
           bitmap = [45], blocks = 8, poison = 0, err_out = []\<rparr> (16 - 8) = Inr now \<and>
   read64 \<lparr>mem = [3, now, 0, 0, now, now, 3, now, 0, 0, now, now, 0, 0, 0, 0],
           bitmap = [45], blocks = 8, poison = 0, err_out = []\<rparr> (64 - 8) = Inr now"
  by code_simp

text \<open>
  When the search loop itself runs to its end, \<open>alloc\<close> returns the null pointer and
  only writes its message.
\<close>

lemma alloc_exhausted:
  "poison st = 0 \<Longrightarrow> find_run st 0 (blk_of sz) = Inr None \<Longrightarrow>
     alloc st sz now = Inr (None, st\<lparr>err_out := err_out st @ [exhausted_msg]\<rparr>)"
  by (simp add: alloc_def Let_def)

text \<open>
  C7. Without a free run of the required length \<open>alloc\<close> should return the null pointer
  and change nothing. After a 128-byte allocation on a fresh pool of 256 bytes, 10 of
  the 16 blocks belong to the live allocation (its header stores the count 10), and the
  bitmap bytes are 85 and 255: every bit from block 8 on is set and no two neighbouring
  bits below are clear. A request of 96 bytes needs 8 blocks. The search accepts the
  run at block 7, since bit 7 is clear and \<open>IS_FREE\<close> is true for every block from 8
  on: \<open>alloc\<close> returns offset 128, writes a header into the payload of the live
  allocation and changes the bitmap.
\<close>

theorem alloc_no_free_run_C7:
  "alloc_init uninitialized 256 Mapped Mapped =
     Inr \<lparr>mem = replicate 32 0, bitmap = [0, 0], blocks = 16, poison = 0, err_out = []\<rparr> \<and>
   alloc \<lparr>mem = replicate 32 0, bitmap = [0, 0], blocks = 16, poison = 0, err_out = []\<rparr> 128 t1 =
     Inr (Some 16,
          \<lparr>mem = [10, t1, 0, 0, 0, 0, 0, 0, 0, 0, 0, 0, 0, 0, 0, 0,
                  0, 0, t1, t1, 0, 0, 0, 0, 0, 0, 0, 0, 0, 0, 0, 0],
           bitmap = [85, 255], blocks = 16, poison = 0, err_out = []\<rparr>) \<and>
   blk_of 96 = 8 \<and>
   alloc \<lparr>mem = [10, t1, 0, 0, 0, 0, 0, 0, 0, 0, 0, 0, 0, 0, 0, 0,
                 0, 0, t1, t1, 0, 0, 0, 0, 0, 0, 0, 0, 0, 0, 0, 0],
          bitmap = [85, 255], blocks = 16, poison = 0, err_out = []\<rparr> 96 t2 =
     Inr (Some 128,
          \<lparr>mem = [10, t1, 0, 0, 0, 0, 0, 0, 0, 0, 0, 0, 0, 0, 8, t2,
                  0, 0, t1, t1, 0, 0, 0, 0, 0, 0, 0, 0, t2, t2, 0, 0],
           bitmap = [42, 255], blocks = 16, poison = 0, err_out = []\<rparr>)"
  by code_simp

text \<open>
  C9. The run an allocation takes should end inside the pool, \<open>i + blk \<le> blocks\<close>, and
  the bitmap should only be indexed below \<open>blocks\<close>. The inner loop compares \<open>j\<close> with
  \<open>i + blk\<close> only, never with \<open>blocks\<close>. On a pool of 16 bytes, one block, a request
  of 1 byte needs 3 blocks; the search accepts the run at block 0, and the footer is
  written at byte offset 32 of the 16-byte pool. On a pool of 128 bytes, 8 blocks and a
  one-byte bitmap, a request of 96 bytes needs 8 blocks and is given the run at block 0,
  which does end inside the pool; the marking loop then goes on to \<open>MARK(8)\<close>, block
  index \<open>blocks\<close>, in the second byte of a one-byte bitmap.
\<close>

theorem alloc_run_outside_pool_C9:
  "alloc_init uninitialized 16 Mapped Mapped =
     Inr \<lparr>mem = replicate 2 0, bitmap = [0], blocks = 1, poison = 0, err_out = []\<rparr> \<and>
   blocks \<lparr>mem = replicate 2 0, bitmap = [0], blocks = 1, poison = 0, err_out = []\<rparr> = 1 \<and>
   blk_of 1 = 3 \<and>
   find_run \<lparr>mem = replicate 2 0, bitmap = [0], blocks = 1, poison = 0, err_out = []\<rparr> 0 3 =
     Inr (Some 0) \<and>
   alloc \<lparr>mem = replicate 2 0, bitmap = [0], blocks = 1, poison = 0, err_out = []\<rparr> 1 now =
     Inl PoolOutOfBounds \<and>
   alloc_init uninitialized 128 Mapped Mapped =
     Inr \<lparr>mem = replicate 16 0, bitmap = [0], blocks = 8, poison = 0, err_out = []\<rparr> \<and>
   blocks \<lparr>mem = replicate 16 0, bitmap = [0], blocks = 8, poison = 0, err_out = []\<rparr> = 8 \<and>
   length (bitmap \<lparr>mem = replicate 16 0, bitmap = [0], blocks = 8, poison = 0, err_out = []\<rparr>) =
     1 \<and>
   blk_of 96 = 8 \<and>
   find_run \<lparr>mem = replicate 16 0, bitmap = [0], blocks = 8, poison = 0, err_out = []\<rparr> 0 8 =
     Inr (Some 0) \<and>
   alloc \<lparr>mem = replicate 16 0, bitmap = [0], blocks = 8, poison = 0, err_out = []\<rparr> 96 now =
     Inl BitmapOutOfBounds"
  by code_simp

section \<open>The block count of a request\<close>

text \<open>
  A run is accepted only after \<open>IS_FREE\<close> has answered "free" for each of its blocks,
  and \<open>IS_FREE\<close> has an answer below block 31 only.
\<close>

lemma IS_FREE_defined: "IS_FREE st k = Inr b \<Longrightarrow> k < 31"
  by (auto simp: IS_FREE_def split: if_splits)

lemma check_run_True:
  "check_run st j bound = Inr True \<Longrightarrow> j \<le> k \<Longrightarrow> k < bound \<Longrightarrow> IS_FREE st k = Inr True"
proof (induction st j bound rule: check_run.induct)
  case (1 st j bound)
  from "1.prems" have lt: "j < bound"
    by simp
  with "1.prems"(1) have f: "IS_FREE st j = Inr True"
    and r: "check_run st (Suc j) bound = Inr True"
    by (auto simp: check_run.simps [of st j bound] split: sum.splits if_splits)
  show ?case
  proof (cases "k = j")
    case True
    with f show ?thesis
      by simp
  next
    case False
    with "1.prems" have "Suc j \<le> k"
      by simp
    from "1.IH" [OF lt f _ r this "1.prems"(3)] show ?thesis
      by simp
  qed
qed

lemma find_run_Some:
  "find_run st i0 blk = Inr (Some i) \<Longrightarrow>
     IS_FREE st i = Inr True \<and> check_run st i (unat (word_of_nat i + blk)) = Inr True"
proof (induction st i0 blk rule: find_run.induct)
  case (1 st i0 blk)
  from "1.prems" have lt: "i0 < unat (blocks st)"
    by (auto simp: find_run.simps [of st i0 blk] split: if_splits)
  from "1.prems" lt obtain free where f: "IS_FREE st i0 = Inr free"
    by (auto simp: find_run.simps [of st i0 blk] split: sum.splits)
  show ?case
  proof (cases free)
    case False
    with "1.prems" lt f have "find_run st (Suc i0) blk = Inr (Some i)"
      by (simp add: find_run.simps [of st i0 blk])
    from "1.IH"(2) [OF lt f _ this] False show ?thesis
      by simp
  next
    case True
    with "1.prems" lt f obtain ok where
      c: "check_run st i0 (unat (word_of_nat i0 + blk)) = Inr ok"
      by (auto simp: find_run.simps [of st i0 blk] split: sum.splits)
    show ?thesis
    proof (cases ok)
      case True
      with "1.prems" lt f c \<open>free\<close> have "i = i0"
        by (simp add: find_run.simps [of st i0 blk])
      with f c True \<open>free\<close> show ?thesis
        by simp
    next
      case False
      with "1.prems" lt f c \<open>free\<close> have "find_run st (Suc i0) blk = Inr (Some i)"
        by (simp add: find_run.simps [of st i0 blk])
      from "1.IH"(1) [OF lt f _ c _ this] \<open>free\<close> False show ?thesis
        by simp
    qed
  qed
qed

lemma unat_small: "n < 2 ^ 64 \<Longrightarrow> unat (word_of_nat n :: 64 word) = n"
  by (simp add: unat_of_nat)

lemma unat_blk_of: "unat (blk_of sz) = unat (round16 sz) div 16 + 2"
proof -
  have "unat (round16 sz) < 2 ^ 64"
    using unsigned_less [of "round16 sz", where ?'a = nat] by simp
  then have "unat (round16 sz) div 16 + 2 < 18446744073709551616"
    by simp
  then have "(unat (round16 sz) div 16 + 2) mod 18446744073709551616 =
      unat (round16 sz) div 16 + 2"
    by (rule mod_less)
  moreover have "unat (round16 sz div 16 + 2) =
      (unat (round16 sz div 16) + unat (2 :: 64 word)) mod 2 ^ 64"
    by (simp only: unat_word_ariths(1) len_of_numeral_defs)
       simp
  ultimately show ?thesis
    by (simp add: blk_of_def unat_div)
qed

lemma alloc_success_run:
  assumes "alloc st sz now = Inr (Some p, st')"
  shows "\<exists>i. i + unat (blk_of sz) \<le> 31 \<and> alloc_at st i (blk_of sz) now = Inr (Some p, st')"
proof -
  from assms obtain i where f: "find_run st 0 (blk_of sz) = Inr (Some i)"
    and a: "alloc_at st i (blk_of sz) now = Inr (Some p, st')"
    by (auto simp: alloc_def Let_def split: if_splits sum.splits option.splits)
  define b where "b = unat (blk_of sz)"
  have b2: "2 \<le> b" and bhi: "b < 2 ^ 61"
  proof -
    have "unat (round16 sz) < 2 ^ 64"
      using unsigned_less [of "round16 sz", where ?'a = nat] by simp
    then show "2 \<le> b" and "b < 2 ^ 61"
      by (simp_all add: b_def unat_blk_of)
  qed
  from find_run_Some [OF f] have fi: "IS_FREE st i = Inr True"
    and c: "check_run st i (unat (word_of_nat i + blk_of sz)) = Inr True"
    by simp_all
  from IS_FREE_defined [OF fi] have i: "i < 31" .
  have "unat (word_of_nat i + blk_of sz) = (unat (word_of_nat i :: 64 word) + b) mod 2 ^ 64"
    by (simp add: unat_word_ariths b_def)
  also from i have "unat (word_of_nat i :: 64 word) = i"
    by (simp add: unat_of_nat)
  also from i bhi have "(i + b) mod 2 ^ 64 = i + b"
    by simp
  finally have bound: "unat (word_of_nat i + blk_of sz) = i + b" .
  from b2 have "i \<le> i + b - 1" and "i + b - 1 < i + b"
    by simp_all
  from check_run_True [OF c [unfolded bound] this] have "IS_FREE st (i + b - 1) = Inr True" .
  from IS_FREE_defined [OF this] b2 have "i + b \<le> 31"
    by simp
  with a show ?thesis
    by (auto simp: b_def)
qed

lemma alloc_at_header:
  assumes a: "alloc_at st i blk now = Inr (p, st')"
    and b2: "2 \<le> unat blk" and small: "i + unat blk \<le> 31"
  shows "read64 st' (word_of_nat i * 16) = Inr blk"
proof -
  define b where "b = unat blk"
  have blk: "blk = word_of_nat b"
    by (simp add: b_def)
  from b2 have b1: "word_of_nat b - 1 = (word_of_nat (b - 1) :: 64 word)"
    by (simp add: b_def of_nat_diff)
  from a obtain st1 st2 st3 st4 where
    w2: "write64 st1 (word_of_nat i * 16) blk = Inr st2" and
    w3: "write64 st2 (word_of_nat i * 16 + 8) now = Inr st3" and
    w4: "write64 st3 (word_of_nat i * 16 + (blk - 1) * 16) now = Inr st4" and
    w5: "write64 st4 (word_of_nat i * 16 + (blk - 1) * 16 + 8) now = Inr st'"
    by (auto simp: alloc_at_def split: sum.splits)
  have o0: "word_of_nat i * 16 = (word_of_nat (16 * i) :: 64 word)"
    by simp
  have o1: "word_of_nat i * 16 + 8 = (word_of_nat (16 * i + 8) :: 64 word)"
    by simp
  have o3: "word_of_nat i * 16 + (blk - 1) * 16 = (word_of_nat (16 * i + 16 * (b - 1)) :: 64 word)"
    by (simp add: blk b1)
  have o4: "word_of_nat i * 16 + (blk - 1) * 16 + 8 =
      (word_of_nat (16 * i + 16 * (b - 1) + 8) :: 64 word)"
    by (simp add: blk b1)
  from small have lt: "16 * i < 2 ^ 64" "16 * i + 8 < 2 ^ 64"
    "16 * i + 16 * (b - 1) < 2 ^ 64" "16 * i + 16 * (b - 1) + 8 < 2 ^ 64"
    by (simp_all add: b_def)
  have u0: "unat (word_of_nat i * 16 :: 64 word) = 16 * i"
    unfolding o0 using lt(1) by (rule unat_small)
  have u1: "unat (word_of_nat i * 16 + 8 :: 64 word) = 16 * i + 8"
    unfolding o1 using lt(2) by (rule unat_small)
  have u3: "unat (word_of_nat i * 16 + (blk - 1) * 16) = 16 * i + 16 * (b - 1)"
    unfolding o3 using lt(3) by (rule unat_small)
  have u4: "unat (word_of_nat i * 16 + (blk - 1) * 16 + 8) = 16 * i + 16 * (b - 1) + 8"
    unfolding o4 using lt(4) by (rule unat_small)
  have k0: "(16 * i) div 8 = 2 * i" and k1: "(16 * i + 8) div 8 = 2 * i + 1"
    and k3: "(16 * i + 16 * (b - 1)) div 8 = 2 * i + 2 * (b - 1)"
    and k4: "(16 * i + 16 * (b - 1) + 8) div 8 = 2 * i + 2 * (b - 1) + 1"
    by simp_all
  note m2 = write64_mem [OF w2, unfolded u0 k0]
    and m3 = write64_mem [OF w3, unfolded u1 k1]
    and m4 = write64_mem [OF w4, unfolded u3 k3]
    and m5 = write64_mem [OF w5, unfolded u4 k4]
  from b2 have ne: "2 * i \<noteq> 2 * i + 1" "2 * i \<noteq> 2 * i + 2 * (b - 1)"
    "2 * i \<noteq> 2 * i + 2 * (b - 1) + 1"
    by (simp_all add: b_def)
  from m2 m3 m4 m5 have len: "2 * i < length (mem st')"
    by simp
  from m2 m3 m4 m5 ne have "mem st' ! (2 * i) = blk"
    by (simp add: nth_list_update)
  with len show ?thesis
    by (simp add: read64_def u0 k0)
qed

lemma alloc_header_count:
  assumes "alloc st sz now = Inr (Some p, st')"
  shows "read64 st' (p - 16) = Inr (blk_of sz) \<and>
         unat (blk_of sz) = unat (round16 sz) div 16 + 2"
proof -
  from alloc_success_run [OF assms] obtain i where small: "i + unat (blk_of sz) \<le> 31"
    and a: "alloc_at st i (blk_of sz) now = Inr (Some p, st')"
    by blast
  have b2: "2 \<le> unat (blk_of sz)"
    by (simp add: unat_blk_of)
  from alloc_at_ptr [OF a] have "p - 16 = word_of_nat i * 16"
    by (simp add: algebra_simps)
  then have "read64 st' (p - 16) = Inr (blk_of sz)"
    by (simp only: alloc_at_header [OF a b2 small])
  then show ?thesis
    by (simp add: unat_blk_of)
qed

text \<open>
  C10. The rounding of the request is 64-bit arithmetic. For a size that is no multiple
  of 16 the rounded size is \<open>sz + (16 - sz mod 16)\<close> modulo \<open>2^64\<close>, the number of blocks
  \<open>alloc\<close> searches for is that value divided by 16, plus 2, and this is the block count
  every successful call leaves in the header, 16 bytes in front of the returned pointer.
  For every size above \<open>2^64 - 16\<close> the rounded size is 0 and \<open>blk\<close> is 2, and \<open>alloc\<close>
  does exactly what it does for a request of 0 bytes.
\<close>

theorem round16_wraps_C10:
  "(sz mod 16 \<noteq> 0 \<longrightarrow>
      unat (round16 sz) = (unat sz + (16 - unat sz mod 16)) mod 2 ^ 64) \<and>
   (sz mod 16 \<noteq> 0 \<longrightarrow>
      unat (blk_of sz) = (unat sz + (16 - unat sz mod 16)) mod 2 ^ 64 div 16 + 2) \<and>
   (sz mod 16 \<noteq> 0 \<longrightarrow>
      (\<forall>p st'. alloc st sz now = Inr (Some p, st') \<longrightarrow>
         (\<exists>h. read64 st' (p - 16) = Inr h \<and> h = blk_of sz \<and>
              unat h = (unat sz + (16 - unat sz mod 16)) mod 2 ^ 64 div 16 + 2))) \<and>
   (2 ^ 64 - 16 < unat sz \<longrightarrow>
      round16 sz = 0 \<and> blk_of sz = 2 \<and> alloc st sz now = alloc st 0 now)"
proof -
  have c1: "sz mod 16 \<noteq> 0 \<longrightarrow>
      unat (round16 sz) = (unat sz + (16 - unat sz mod 16)) mod 2 ^ 64"
    by (simp add: unat_round16)
  have c2: "sz mod 16 \<noteq> 0 \<longrightarrow>
      unat (blk_of sz) = (unat sz + (16 - unat sz mod 16)) mod 2 ^ 64 div 16 + 2"
    by (simp add: unat_round16 unat_blk_of)
  have c3: "sz mod 16 \<noteq> 0 \<longrightarrow>
      (\<forall>p st'. alloc st sz now = Inr (Some p, st') \<longrightarrow>
         (\<exists>h. read64 st' (p - 16) = Inr h \<and> h = blk_of sz \<and>
              unat h = (unat sz + (16 - unat sz mod 16)) mod 2 ^ 64 div 16 + 2))"
  proof (intro impI allI)
    fix p st'
    assume nz: "sz mod 16 \<noteq> 0" and ok: "alloc st sz now = Inr (Some p, st')"
    from alloc_header_count [OF ok] unat_round16 [OF nz]
    show "\<exists>h. read64 st' (p - 16) = Inr h \<and> h = blk_of sz \<and>
        unat h = (unat sz + (16 - unat sz mod 16)) mod 2 ^ 64 div 16 + 2"
      by simp
  qed
  have c4: "2 ^ 64 - 16 < unat sz \<longrightarrow>
      round16 sz = 0 \<and> blk_of sz = 2 \<and> alloc st sz now = alloc st 0 now"
    by (simp add: round16_top blk_of_top alloc_top)
  show ?thesis
    by (intro conjI c1 c2 c3 c4)
qed

theorem round16_wraps_C10_witness:
  "(17 :: 64 word) mod 16 \<noteq> 0 \<and>
   unat (round16 17) = (17 + (16 - 17 mod 16)) mod 2 ^ 64 \<and>
   unat (blk_of 17) = (17 + (16 - 17 mod 16)) mod 2 ^ 64 div 16 + 2 \<and>
   alloc \<lparr>mem = replicate 16 0, bitmap = [0], blocks = 8, poison = 0, err_out = []\<rparr> 17 77 =
     Inr (Some 16,
          \<lparr>mem = [4, 77, 0, 0, 0, 0, 77, 77, 0, 0, 0, 0, 0, 0, 0, 0],
           bitmap = [10], blocks = 8, poison = 0, err_out = []\<rparr>) \<and>
   read64 \<lparr>mem = [4, 77, 0, 0, 0, 0, 77, 77, 0, 0, 0, 0, 0, 0, 0, 0],
           bitmap = [10], blocks = 8, poison = 0, err_out = []\<rparr> (16 - 16) = Inr 4 \<and>
   unat (4 :: 64 word) = (17 + (16 - 17 mod 16)) mod 2 ^ 64 div 16 + 2 \<and>
   (18446744073709551615 :: 64 word) mod 16 \<noteq> 0 \<and>
   unat (round16 18446744073709551615) = (18446744073709551615 + (16 - 15)) mod 2 ^ 64 \<and>
   2 ^ 64 - 16 < unat (18446744073709551615 :: 64 word) \<and>
   round16 18446744073709551615 = 0 \<and> blk_of 18446744073709551615 = 2 \<and>
   alloc \<lparr>mem = replicate 16 0, bitmap = [0], blocks = 8, poison = 0, err_out = []\<rparr>
     18446744073709551615 77 =
     Inr (Some 16,
          \<lparr>mem = [2, 77, 77, 77, 0, 0, 0, 0, 0, 0, 0, 0, 0, 0, 0, 0],
           bitmap = [2], blocks = 8, poison = 0, err_out = []\<rparr>)"
proof -
  let ?S = "\<lparr>mem = replicate 16 0, bitmap = [0], blocks = 8, poison = 0, err_out = []\<rparr>"
  let ?T = "\<lparr>mem = [4, 77, 0, 0, 0, 0, 77, 77, 0, 0, 0, 0, 0, 0, 0, 0] :: 64 word list,
           bitmap = [10], blocks = 8, poison = 0, err_out = []\<rparr>"
  have g1: "(17 :: 64 word) mod 16 \<noteq> 0"
    by simp
  have g2: "alloc ?S 17 77 = Inr (Some 16, ?T)"
    by code_simp
  have h1: "(18446744073709551615 :: 64 word) mod 16 \<noteq> 0"
    by simp
  have h2: "2 ^ 64 - 16 < unat (18446744073709551615 :: 64 word)"
    by simp
  have z: "alloc ?S 0 77 =
     Inr (Some 16,
          \<lparr>mem = [2, 77, 77, 77, 0, 0, 0, 0, 0, 0, 0, 0, 0, 0, 0, 0],
           bitmap = [2], blocks = 8, poison = 0, err_out = []\<rparr>)"
    by code_simp
  note a = round16_wraps_C10 [of 17 ?S 77]
  from a g1 have a1: "unat (round16 17) = (17 + (16 - 17 mod 16)) mod 2 ^ 64"
    and a2: "unat (blk_of 17) = (17 + (16 - 17 mod 16)) mod 2 ^ 64 div 16 + 2"
    by simp_all
  from a g1 g2 obtain h where "read64 ?T (16 - 16) = Inr h" and "h = blk_of 17"
    and "unat h = (17 + (16 - 17 mod 16)) mod 2 ^ 64 div 16 + 2"
    by auto
  then have a3: "read64 ?T (16 - 16) = Inr 4"
    and a4: "unat (4 :: 64 word) = (17 + (16 - 17 mod 16)) mod 2 ^ 64 div 16 + 2"
    by (simp_all add: read64_def)
  from round16_wraps_C10 [of 18446744073709551615 ?S 77] h1 h2 z
  have b: "unat (round16 18446744073709551615) = (18446744073709551615 + (16 - 15)) mod 2 ^ 64"
    "round16 18446744073709551615 = 0" "blk_of 18446744073709551615 = 2"
    "alloc ?S 18446744073709551615 77 =
     Inr (Some 16,
          \<lparr>mem = [2, 77, 77, 77, 0, 0, 0, 0, 0, 0, 0, 0, 0, 0, 0, 0],
           bitmap = [2], blocks = 8, poison = 0, err_out = []\<rparr>)"
    by simp_all
  show ?thesis
    by (intro conjI g1 a1 a2 g2 a3 a4 h1 h2 b)
qed

end
